theory Spec2Isabelle
  imports Main "HOL-Library.AList"
begin

section \<open>Python values and exceptions\<close>

text \<open>
  The exceptions that the methods of \<open>UserProperties\<close> raise or handle.
  \<open>json.JSONDecodeError\<close> is a subclass of \<open>ValueError\<close>, so a handler
  \<open>except ValueError\<close> catches both.
\<close>

datatype error = KeyError | ValueError | JSONDecodeError | RuntimeError | TypeError

fun isinstance_ValueError :: "error \<Rightarrow> bool" where
  "isinstance_ValueError ValueError = True"
| "isinstance_ValueError JSONDecodeError = True"
| "isinstance_ValueError _ = False"

text \<open>A buffer is a Python \<open>str\<close> or \<open>None\<close>.\<close>

type_synonym buffer = "string option"

text \<open>Keys are \<open>Union[int, str]\<close>; a \<open>dict\<close> keeps its insertion order.\<close>

datatype key = IntKey int | StrKey string

type_synonym 'v dict = "(key \<times> 'v) list"

section \<open>The host node\<close>

text \<open>
  The node that \<open>self.__handle__\<close> refers to, as far as the class touches it: the
  dynamic attribute \<open>notes\<close> (absent, or present with the arguments it was added with
  and its current string data) and the lock flag of the node.
  \<open>objectPath\<close> resolves the handle to the name by which the commands below address
  this same node, so the node itself is passed to them.
\<close>

record attribute =
  shortName :: string
  dataType :: string
  cachedInternally :: bool
  contents :: buffer

record depend_node =
  notesAttr :: "attribute option"
  locked :: bool

text \<open>
  Modelled from the spec: the commands of the host application (\<open>maya.cmds\<close>), which
  are not part of the repository. Section 6 of the specification: attribute query,
  lock query, attribute creation (rejected on a locked node), attribute read and write.
  Reading a missing attribute raises \<open>ValueError\<close> (the handler of \<open>tryGetBuffer\<close>);
  the other commands raise \<open>RuntimeError\<close>.
\<close>

definition mc_attributeQuery :: "depend_node \<Rightarrow> bool" where
  "mc_attributeQuery n = (notesAttr n \<noteq> None)"

definition mc_lockNode :: "depend_node \<Rightarrow> bool list" where
  "mc_lockNode n = [locked n]"

definition mc_addAttr :: "depend_node \<Rightarrow> string \<Rightarrow> string \<Rightarrow> bool \<Rightarrow> error + depend_node" where
  "mc_addAttr n short dt cached =
     (if locked n \<or> notesAttr n \<noteq> None then Inl RuntimeError
      else Inr (n\<lparr>notesAttr := Some \<lparr>shortName = short, dataType = dt,
                                   cachedInternally = cached, contents = None\<rparr>\<rparr>))"

definition mc_getAttr :: "depend_node \<Rightarrow> error + buffer" where
  "mc_getAttr n = (case notesAttr n of None \<Rightarrow> Inl ValueError | Some a \<Rightarrow> Inr (contents a))"

definition mc_setAttr :: "depend_node \<Rightarrow> string \<Rightarrow> error + depend_node" where
  "mc_setAttr n txt =
     (case notesAttr n of
        None \<Rightarrow> Inl RuntimeError
      | Some a \<Rightarrow> Inr (n\<lparr>notesAttr := Some (a\<lparr>contents := Some txt\<rparr>)\<rparr>))"

text \<open>
  Modelled from the spec: \<open>stringutils.isNullOrEmpty\<close> of the \<open>dcc\<close> package, which
  is not part of the repository ("if the text is empty/absent").
\<close>

fun isNullOrEmpty :: "buffer \<Rightarrow> bool" where
  "isNullOrEmpty None = True"
| "isNullOrEmpty (Some s) = (length s = 0)"

section \<open>The codec\<close>

text \<open>
  \<open>json.dumps(_, indent=4, cls=MDataEncoder)\<close> and \<open>json.loads(_, cls=MDataDecoder)\<close>
  are external; they are parameters of the model. \<open>dumps\<close> returns the text or the
  exception it raises; \<open>loads\<close> returns the decoded mapping or the exception it raises
  (\<open>JSONDecodeError\<close> on malformed text). The mapping held by the class is a
  \<open>dict\<close>: a text whose top-level JSON value is not an object is outside this model.
\<close>

record 'v codec =
  dumps :: "'v dict \<Rightarrow> error + string"
  loads :: "string \<Rightarrow> error + 'v dict"

section \<open>UserProperties\<close>

text \<open>
  The two slots of an instance: \<open>__properties__\<close> and the node that \<open>__handle__\<close>
  refers to. A method takes the state and returns what it returns or raises together
  with the state it leaves behind: an assignment made before an exception is raised
  stays made. \<open>__init__\<close> is given the node that \<open>dagutils.getMObjectHandle\<close> resolved.
\<close>

record 'v state =
  properties :: "'v dict"
  handle :: depend_node

definition getitem :: "'v state \<Rightarrow> key \<Rightarrow> error + 'v" where
  "getitem s k = (case map_of (properties s) k of None \<Rightarrow> Inl KeyError | Some v \<Rightarrow> Inr v)"

definition len :: "'v state \<Rightarrow> nat" where
  "len s = length (properties s)"

definition keys :: "'v state \<Rightarrow> key list" where
  "keys s = map fst (properties s)"

definition ensureNotes :: "'v state \<Rightarrow> (error + unit) \<times> 'v state" where
  "ensureNotes s =
     (let hasAttribute = mc_attributeQuery (handle s);
          isLocked = mc_lockNode (handle s) ! 0
      in if \<not> hasAttribute \<and> \<not> isLocked
         then (case mc_addAttr (handle s) ''nts'' ''string'' True of
                 Inl e \<Rightarrow> (Inl e, s)
               | Inr n \<Rightarrow> (Inr (), s\<lparr>handle := n\<rparr>))
         else (Inr (), s))"

text \<open>
  \<open>buffer\<close> and \<open>tryGetBuffer\<close> over the read command of the host: \<open>mc.getAttr\<close> is
  external, and what it raises besides the error for a missing attribute is up to the
  host. The methods of the class are these at the modelled command \<open>mc_getAttr\<close>.
\<close>

definition buffer_via :: "(depend_node \<Rightarrow> error + buffer) \<Rightarrow> 'v state \<Rightarrow> error + buffer" where
  "buffer_via getAttr s = getAttr (handle s)"

definition buffer :: "'v state \<Rightarrow> error + buffer" where
  "buffer s = buffer_via mc_getAttr s"

text \<open>
  \<open>try: return x  except ValueError: return y\<close>, applied to the outcome of evaluating
  \<open>x\<close>: a \<open>ValueError\<close> (or an instance of a subclass) becomes \<open>y\<close>, every other
  outcome is passed on.
\<close>

definition except_ValueError :: "error + 'a \<Rightarrow> 'a \<Rightarrow> error + 'a" where
  "except_ValueError r y =
     (case r of
        Inl e \<Rightarrow> if isinstance_ValueError e then Inr y else Inl e
      | Inr x \<Rightarrow> Inr x)"

definition tryGetBuffer_via :: "(depend_node \<Rightarrow> error + buffer) \<Rightarrow> 'v state \<Rightarrow> error + buffer" where
  "tryGetBuffer_via getAttr s = except_ValueError (buffer_via getAttr s) (Some '''')"

definition tryGetBuffer :: "'v state \<Rightarrow> error + buffer" where
  "tryGetBuffer s = tryGetBuffer_via mc_getAttr s"

definition invalidate :: "'v codec \<Rightarrow> 'v state \<Rightarrow> (error + unit) \<times> 'v state" where
  "invalidate c s =
     (if length (properties s) = 0 then (Inr (), s)
      else (case ensureNotes s of
              (Inl e, s1) \<Rightarrow> (Inl e, s1)
            | (Inr _, s1) \<Rightarrow>
                (case dumps c (properties s1) of
                   Inl e \<Rightarrow> (Inl e, s1)
                 | Inr notes \<Rightarrow>
                     (case mc_setAttr (handle s1) notes of
                        Inl e \<Rightarrow> (Inl e, s1)
                      | Inr n \<Rightarrow> (Inr (), s1\<lparr>handle := n\<rparr>)))))"

definition setitem :: "'v codec \<Rightarrow> key \<Rightarrow> 'v \<Rightarrow> 'v state \<Rightarrow> (error + unit) \<times> 'v state" where
  "setitem c k v s = invalidate c (s\<lparr>properties := AList.update k v (properties s)\<rparr>)"

definition delitem :: "'v codec \<Rightarrow> key \<Rightarrow> 'v state \<Rightarrow> (error + unit) \<times> 'v state" where
  "delitem c k s =
     (if k \<in> set (map fst (properties s))
      then invalidate c (s\<lparr>properties := AList.delete k (properties s)\<rparr>)
      else (Inl KeyError, s))"

definition update :: "'v codec \<Rightarrow> 'v dict \<Rightarrow> 'v state \<Rightarrow> (error + unit) \<times> 'v state" where
  "update c items s =
     invalidate c (s\<lparr>properties := foldl (\<lambda>d (k, v). AList.update k v d) (properties s) items\<rparr>)"

text \<open>
  \<open>setBuffer\<close>: the \<open>try\<close> block holds both the decoding and the call of
  \<open>invalidate\<close>, so a \<open>JSONDecodeError\<close> out of either reaches the handler; any other
  exception propagates.
\<close>

definition setBuffer :: "'v codec \<Rightarrow> buffer \<Rightarrow> 'v state \<Rightarrow> (error + unit) \<times> 'v state" where
  "setBuffer c buf s =
     (if isNullOrEmpty buf then (Inr (), s)
      else (case ensureNotes s of
              (Inl e, s1) \<Rightarrow> (Inl e, s1)
            | (Inr _, s1) \<Rightarrow>
                (case (case loads c (case buf of None \<Rightarrow> [] | Some txt \<Rightarrow> txt) of
                         Inl e \<Rightarrow> (Inl e, s1)
                       | Inr d \<Rightarrow> invalidate c (s1\<lparr>properties := d\<rparr>)) of
                   (Inl e, s2) \<Rightarrow>
                     if e = JSONDecodeError then invalidate c (s2\<lparr>properties := []\<rparr>)
                     else (Inl e, s2)
                 | (Inr u, s2) \<Rightarrow> (Inr u, s2))))"

definition reload :: "'v codec \<Rightarrow> 'v state \<Rightarrow> (error + unit) \<times> 'v state" where
  "reload c s =
     (case tryGetBuffer s of
        Inl e \<Rightarrow> (Inl e, s)
      | Inr buf \<Rightarrow> setBuffer c buf s)"

definition init :: "'v codec \<Rightarrow> depend_node \<Rightarrow> (error + unit) \<times> 'v state" where
  "init c obj = reload c \<lparr>properties = [], handle = obj\<rparr>"

section \<open>A concrete codec\<close>

text \<open>
  A codec to run the methods on: the text that \<open>json.dumps(_, indent=4)\<close> produces
  for a mapping with integer values, and a decoder for JSON objects whose keys are
  strings of printable ASCII characters without escapes and whose values are integers.
  As in JSON, an integer key is written as a string, a repeated key keeps its last
  value, and the empty text does not decode. Texts outside this fragment are rejected.
\<close>

fun show_nat :: "nat \<Rightarrow> string" where
  "show_nat n =
     (if n < 10 then [''0123456789'' ! n]
      else show_nat (n div 10) @ [''0123456789'' ! (n mod 10)])"

declare show_nat.simps [simp del]

definition show_int :: "int \<Rightarrow> string" where
  "show_int i = (if i < 0 then CHR ''-'' # show_nat (nat (- i)) else show_nat (nat i))"

definition quoted :: "string \<Rightarrow> string" where
  "quoted s = [CHR 0x22] @ s @ [CHR 0x22]"

fun show_key :: "key \<Rightarrow> string" where
  "show_key (StrKey s) = quoted s"
| "show_key (IntKey i) = quoted (show_int i)"

definition show_member :: "key \<times> int \<Rightarrow> string" where
  "show_member kv = ''    '' @ show_key (fst kv) @ '': '' @ show_int (snd kv)"

fun join :: "string \<Rightarrow> string list \<Rightarrow> string" where
  "join sep [] = []"
| "join sep [x] = x"
| "join sep (x # y # ys) = x @ sep @ join sep (y # ys)"

definition demo_dumps :: "int dict \<Rightarrow> string" where
  "demo_dumps d =
     (if d = [] then ''{}''
      else ''{'' @ [CHR 0x0A] @ join ('','' @ [CHR 0x0A]) (map show_member d) @ [CHR 0x0A] @ ''}'')"

definition is_space :: "char \<Rightarrow> bool" where
  "is_space ch = (ch \<in> set ([CHR '' '', CHR 0x0A, CHR 0x0D, CHR 0x09]))"

definition skip_ws :: "string \<Rightarrow> string" where
  "skip_ws s = dropWhile is_space s"

definition is_digit :: "char \<Rightarrow> bool" where
  "is_digit ch = (ch \<in> set ''0123456789'')"

definition digit_val :: "char \<Rightarrow> nat" where
  "digit_val ch = length (takeWhile (\<lambda>d. d \<noteq> ch) ''0123456789'')"

definition read_nat :: "string \<Rightarrow> nat" where
  "read_nat ds = foldl (\<lambda>n ch. 10 * n + digit_val ch) 0 ds"

definition parse_nat :: "string \<Rightarrow> (nat \<times> string) option" where
  "parse_nat s =
     (let ds = takeWhile is_digit s; rest = dropWhile is_digit s
      in if ds = [] \<or> (length ds > 1 \<and> hd ds = CHR ''0'') then None
         else if rest \<noteq> [] \<and> hd rest \<in> set ''.eE'' then None
         else Some (read_nat ds, rest))"

definition parse_int :: "string \<Rightarrow> (int \<times> string) option" where
  "parse_int s =
     (case s of
        [] \<Rightarrow> None
      | ch # s' \<Rightarrow>
          if ch = CHR ''-''
          then map_option (\<lambda>(n, rest). (- int n, rest)) (parse_nat s')
          else map_option (\<lambda>(n, rest). (int n, rest)) (parse_nat s))"

definition plain_char :: "char \<Rightarrow> bool" where
  "plain_char ch = (ch \<noteq> CHR 0x22 \<and> ch \<noteq> CHR 0x5C \<and> 32 \<le> (of_char ch :: nat) \<and> (of_char ch :: nat) < 127)"

definition parse_string :: "string \<Rightarrow> (string \<times> string) option" where
  "parse_string s =
     (case s of
        [] \<Rightarrow> None
      | ch # s' \<Rightarrow>
          if ch \<noteq> CHR 0x22 then None
          else (let body = takeWhile plain_char s'; rest = dropWhile plain_char s'
                in case rest of
                     [] \<Rightarrow> None
                   | q # rest' \<Rightarrow> if q = CHR 0x22 then Some (body, rest') else None))"

definition parse_member :: "string \<Rightarrow> ((key \<times> int) \<times> string) option" where
  "parse_member s =
     (case parse_string s of
        None \<Rightarrow> None
      | Some (k, s1) \<Rightarrow>
          (case skip_ws s1 of
             [] \<Rightarrow> None
           | ch # s2 \<Rightarrow>
               if ch \<noteq> CHR '':'' then None
               else (case parse_int (skip_ws s2) of
                       None \<Rightarrow> None
                     | Some (v, s3) \<Rightarrow> Some ((StrKey k, v), skip_ws s3))))"

fun parse_members :: "nat \<Rightarrow> int dict \<Rightarrow> string \<Rightarrow> (int dict \<times> string) option" where
  "parse_members 0 d s = None"
| "parse_members (Suc fuel) d s =
     (case parse_member s of
        None \<Rightarrow> None
      | Some ((k, v), s1) \<Rightarrow>
          (case s1 of
             [] \<Rightarrow> None
           | ch # s2 \<Rightarrow>
               if ch = CHR ''}'' then Some (AList.update k v d, s2)
               else if ch = CHR '','' then parse_members fuel (AList.update k v d) (skip_ws s2)
               else None))"

definition parse_object :: "string \<Rightarrow> int dict option" where
  "parse_object s =
     (case skip_ws s of
        [] \<Rightarrow> None
      | ch # s1 \<Rightarrow>
          if ch \<noteq> CHR ''{'' then None
          else (case skip_ws s1 of
                  [] \<Rightarrow> None
                | ch' # s2 \<Rightarrow>
                    (case (if ch' = CHR ''}'' then Some ([], s2)
                           else parse_members (length s1) [] (ch' # s2)) of
                       None \<Rightarrow> None
                     | Some (d, rest) \<Rightarrow> if skip_ws rest = [] then Some d else None)))"

definition demo_loads :: "string \<Rightarrow> error + int dict" where
  "demo_loads s = (case parse_object s of None \<Rightarrow> Inl JSONDecodeError | Some d \<Rightarrow> Inr d)"

definition demo_codec :: "int codec" where
  "demo_codec = \<lparr>dumps = (\<lambda>d. Inr (demo_dumps d)), loads = demo_loads\<rparr>"

text \<open>
  The symmetry that the specification requires of the codec, at one mapping:
  \<open>decode(encode(d)) == d\<close>.
\<close>

definition symmetric_on :: "'v codec \<Rightarrow> 'v dict \<Rightarrow> bool" where
  "symmetric_on c d = (case dumps c d of Inl e \<Rightarrow> False | Inr txt \<Rightarrow> loads c txt = Inr d)"

section \<open>Example nodes\<close>

definition notes_with :: "buffer \<Rightarrow> attribute" where
  "notes_with b = \<lparr>shortName = ''nts'', dataType = ''string'', cachedInternally = True, contents = b\<rparr>"

definition node_with :: "buffer \<Rightarrow> depend_node" where
  "node_with b = \<lparr>notesAttr = Some (notes_with b), locked = False\<rparr>"

definition bare_node :: depend_node where
  "bare_node = \<lparr>notesAttr = None, locked = False\<rparr>"

definition locked_node :: depend_node where
  "locked_node = \<lparr>notesAttr = None, locked = True\<rparr>"

text \<open>
  A host whose read command, besides \<open>ValueError\<close> for a missing attribute, raises
  \<open>RuntimeError\<close> for a notes attribute that holds no string data, and a node with
  such an attribute.
\<close>

definition typed_getAttr :: "depend_node \<Rightarrow> error + buffer" where
  "typed_getAttr n =
     (case notesAttr n of
        None \<Rightarrow> Inl ValueError
      | Some a \<Rightarrow> if dataType a = ''string'' then Inr (contents a) else Inl RuntimeError)"

definition message_node :: depend_node where
  "message_node =
     \<lparr>notesAttr = Some \<lparr>shortName = ''nts'', dataType = ''message'',
                         cachedInternally = False, contents = None\<rparr>,
      locked = False\<rparr>"

section \<open>How the methods act on the node\<close>

lemma ensureNotes_cases:
  "ensureNotes s =
     (Inr (),
      if notesAttr (handle s) = None \<and> \<not> locked (handle s)
      then s\<lparr>handle := (handle s)\<lparr>notesAttr := Some \<lparr>shortName = ''nts'', dataType = ''string'',
                                      cachedInternally = True, contents = None\<rparr>\<rparr>\<rparr>
      else s)"
  by (simp add: ensureNotes_def mc_attributeQuery_def mc_lockNode_def mc_addAttr_def)

lemma ensureNotes_present:
  "notesAttr (handle s) = Some a \<Longrightarrow> ensureNotes s = (Inr (), s)"
  by (simp add: ensureNotes_cases)

lemma tryGetBuffer_present:
  "notesAttr (handle s) = Some a \<Longrightarrow> tryGetBuffer s = Inr (contents a)"
  by (simp add: tryGetBuffer_def tryGetBuffer_via_def buffer_via_def mc_getAttr_def
      except_ValueError_def)

lemma tryGetBuffer_missing:
  "notesAttr (handle s) = None \<Longrightarrow> tryGetBuffer s = Inr (Some '''')"
  by (simp add: tryGetBuffer_def tryGetBuffer_via_def buffer_via_def mc_getAttr_def
      except_ValueError_def)

lemma invalidate_empty:
  "properties s = [] \<Longrightarrow> invalidate c s = (Inr (), s)"
  by (simp add: invalidate_def)

lemma invalidate_present:
  assumes "notesAttr (handle s) = Some a" and "properties s \<noteq> []"
  shows "invalidate c s =
           (case dumps c (properties s) of
              Inl e \<Rightarrow> (Inl e, s)
            | Inr txt \<Rightarrow>
                (Inr (), s\<lparr>handle := (handle s)\<lparr>notesAttr := Some (a\<lparr>contents := Some txt\<rparr>)\<rparr>\<rparr>))"
  using assms
  by (simp add: invalidate_def ensureNotes_present mc_setAttr_def split: sum.splits)

lemma setBuffer_no_text:
  "isNullOrEmpty buf \<Longrightarrow> setBuffer c buf s = (Inr (), s)"
  by (simp add: setBuffer_def)

lemma reload_no_text:
  assumes "case notesAttr (handle s) of None \<Rightarrow> True | Some a \<Rightarrow> isNullOrEmpty (contents a)"
  shows "reload c s = (Inr (), s)"
proof (cases "notesAttr (handle s)")
  case None
  then show ?thesis
    by (simp add: reload_def tryGetBuffer_missing setBuffer_no_text)
next
  case (Some a)
  with assms have "isNullOrEmpty (contents a)"
    by simp
  with Some show ?thesis
    by (simp add: reload_def tryGetBuffer_present setBuffer_no_text)
qed

text \<open>
  What \<open>reload\<close> does when the attribute holds text: every path through
  \<open>setBuffer\<close> and \<open>invalidate\<close>.
\<close>

lemma reload_present:
  assumes "notesAttr (handle s) = Some a" and "contents a = Some txt" and "txt \<noteq> []"
  shows "reload c s =
           (case loads c txt of
              Inl e \<Rightarrow>
                if e = JSONDecodeError then (Inr (), s\<lparr>properties := []\<rparr>) else (Inl e, s)
            | Inr d \<Rightarrow>
                if d = [] then (Inr (), s\<lparr>properties := []\<rparr>)
                else (case dumps c d of
                        Inl e \<Rightarrow>
                          if e = JSONDecodeError then (Inr (), s\<lparr>properties := []\<rparr>)
                          else (Inl e, s\<lparr>properties := d\<rparr>)
                      | Inr txt' \<Rightarrow>
                          (Inr (), s\<lparr>properties := d,
                                    handle := (handle s)\<lparr>notesAttr :=
                                      Some (a\<lparr>contents := Some txt'\<rparr>)\<rparr>\<rparr>)))"
proof (cases "loads c txt")
  case (Inl e)
  with assms show ?thesis
    by (simp add: reload_def tryGetBuffer_present setBuffer_def ensureNotes_present
        invalidate_empty)
next
  case (Inr d)
  show ?thesis
  proof (cases "d = []")
    case True
    with assms Inr show ?thesis
      by (simp add: reload_def tryGetBuffer_present setBuffer_def ensureNotes_present
          invalidate_empty)
  next
    case False
    have inv: "invalidate c (s\<lparr>properties := d\<rparr>) =
                 (case dumps c d of
                    Inl e \<Rightarrow> (Inl e, s\<lparr>properties := d\<rparr>)
                  | Inr txt' \<Rightarrow>
                      (Inr (), s\<lparr>properties := d,
                                handle := (handle s)\<lparr>notesAttr :=
                                  Some (a\<lparr>contents := Some txt'\<rparr>)\<rparr>\<rparr>))"
      using assms(1) False invalidate_present [of "s\<lparr>properties := d\<rparr>" a c]
      by (simp split: sum.splits)
    from assms Inr False show ?thesis
      by (simp add: reload_def tryGetBuffer_present setBuffer_def ensureNotes_present
          inv invalidate_empty split: sum.splits)
  qed
qed

section \<open>Decode failure\<close>

text \<open>
  C1 (amended). Loading a non-empty buffer that fails to decode resets the mapping to
  empty and calls \<open>invalidate\<close>, which returns at once on the empty mapping: nothing is
  written. The node is left as \<open>ensureNotes\<close> alone leaves it, and a store constructed
  over a node whose notes hold such text ends with the empty mapping and the node
  untouched, the undecodable text still in place.
\<close>

theorem setBuffer_decode_failure_writes_nothing:
  assumes "buf \<noteq> []" and "loads c buf = Inl JSONDecodeError"
  shows "setBuffer c (Some buf) s = (Inr (), (snd (ensureNotes s))\<lparr>properties := []\<rparr>)
         \<and> (\<forall>a. notesAttr obj = Some a \<and> contents a = Some buf \<longrightarrow>
                init c obj = (Inr (), \<lparr>properties = [], handle = obj\<rparr>))"
proof -
  have "setBuffer c (Some buf) s = (Inr (), (snd (ensureNotes s))\<lparr>properties := []\<rparr>)"
    using assms by (simp add: setBuffer_def ensureNotes_cases invalidate_empty)
  moreover have "init c obj = (Inr (), \<lparr>properties = [], handle = obj\<rparr>)"
    if "notesAttr obj = Some a" and "contents a = Some buf" for a
    using that assms reload_present [of "\<lparr>properties = [], handle = obj\<rparr>" a buf c]
    by (simp add: init_def)
  ultimately show ?thesis
    by blast
qed

theorem setBuffer_decode_failure_writes_nothing_witness:
  "loads demo_codec ''not json'' = Inl JSONDecodeError
   \<and> setBuffer demo_codec (Some ''not json'') \<lparr>properties = [(StrKey ''a'', 1)], handle = bare_node\<rparr>
       = (Inr (), \<lparr>properties = [], handle = node_with None\<rparr>)
   \<and> init demo_codec (node_with (Some ''not json''))
       = (Inr (), \<lparr>properties = [], handle = node_with (Some ''not json'')\<rparr>)"
proof -
  have ne: "''not json'' \<noteq> []"
    by simp
  have fails: "loads demo_codec ''not json'' = Inl JSONDecodeError"
    by code_simp
  have ens: "snd (ensureNotes \<lparr>properties = [(StrKey ''a'', 1::int)], handle = bare_node\<rparr>)
               = \<lparr>properties = [(StrKey ''a'', 1)], handle = node_with None\<rparr>"
    by (simp add: ensureNotes_cases bare_node_def node_with_def notes_with_def)
  have att: "notesAttr (node_with (Some ''not json'')) = Some (notes_with (Some ''not json''))
             \<and> contents (notes_with (Some ''not json'')) = Some ''not json''"
    by (simp add: node_with_def notes_with_def)
  from setBuffer_decode_failure_writes_nothing
         [OF ne fails, of "\<lparr>properties = [(StrKey ''a'', 1)], handle = bare_node\<rparr>"
            "node_with (Some ''not json'')"]
       ens att fails
  show ?thesis
    by simp
qed

text \<open>
  The claim as stated fails: after construction over a node whose notes hold
  \<open>not json\<close>, the attribute still holds that text, not the serialization \<open>{}\<close> of an
  empty mapping.
\<close>

theorem corrupt_notes_not_overwritten:
  "loads demo_codec ''not json'' = Inl JSONDecodeError
   \<and> dumps demo_codec [] = Inr ''{}''
   \<and> fst (init demo_codec (node_with (Some ''not json''))) = Inr ()
   \<and> properties (snd (init demo_codec (node_with (Some ''not json'')))) = []
   \<and> mc_getAttr (handle (snd (init demo_codec (node_with (Some ''not json'')))))
       = Inr (Some ''not json'')
   \<and> mc_getAttr (handle (snd (init demo_codec (node_with (Some ''not json'')))))
       \<noteq> Inr (Some ''{}'')"
  by code_simp

section \<open>Flushing\<close>

text \<open>
  C3. Whenever the in-memory mapping is empty, \<open>invalidate\<close> writes nothing: it
  returns normally and leaves the whole state, the node with its notes attribute
  included, exactly as it was; no attribute is created.
\<close>

theorem invalidate_empty_mapping_is_noop:
  "properties s = [] \<Longrightarrow> invalidate c s = (Inr (), s)"
  by (simp add: invalidate_def)

theorem invalidate_empty_mapping_is_noop_witness:
  "properties \<lparr>properties = ([] :: int dict), handle = node_with (Some ''remember the rig'')\<rparr> = []
   \<and> invalidate demo_codec \<lparr>properties = [], handle = node_with (Some ''remember the rig'')\<rparr>
       = (Inr (), \<lparr>properties = [], handle = node_with (Some ''remember the rig'')\<rparr>)
   \<and> invalidate demo_codec \<lparr>properties = [], handle = bare_node\<rparr>
       = (Inr (), \<lparr>properties = [], handle = bare_node\<rparr>)"
  using invalidate_empty_mapping_is_noop
          [of "\<lparr>properties = [], handle = node_with (Some ''remember the rig'')\<rparr>" demo_codec]
        invalidate_empty_mapping_is_noop
          [of "\<lparr>properties = [], handle = bare_node\<rparr>" demo_codec]
  by simp

text \<open>
  C2 (amended). For a non-empty mapping that the codec serializes to a non-empty text
  which decodes back to it, held by a store whose node has the notes attribute or is
  not locked: \<open>invalidate\<close> succeeds, and a fresh store constructed over the node it
  leaves behind holds an equal mapping.
\<close>

theorem flush_then_fresh_store_roundtrip:
  assumes "properties s \<noteq> []"
    and "notesAttr (handle s) \<noteq> None \<or> \<not> locked (handle s)"
    and "dumps c (properties s) = Inr buf" and "buf \<noteq> []"
    and "loads c buf = Inr (properties s)"
  shows "fst (invalidate c s) = Inr ()
         \<and> properties (snd (invalidate c s)) = properties s
         \<and> init c (handle (snd (invalidate c s)))
             = (Inr (), \<lparr>properties = properties s, handle = handle (snd (invalidate c s))\<rparr>)"
proof -
  obtain s1 where s1: "ensureNotes s = (Inr (), s1)" and p1: "properties s1 = properties s"
    and "notesAttr (handle s1) \<noteq> None"
    using assms(2) by (auto simp add: ensureNotes_cases)
  then obtain a where a: "notesAttr (handle s1) = Some a"
    by blast
  let ?a' = "a\<lparr>contents := Some buf\<rparr>"
  let ?n = "(handle s1)\<lparr>notesAttr := Some ?a'\<rparr>"
  have inv: "invalidate c s = (Inr (), s1\<lparr>handle := ?n\<rparr>)"
    using assms(1,3) s1 p1 a by (simp add: invalidate_def mc_setAttr_def)
  let ?s0 = "\<lparr>properties = [], handle = ?n\<rparr>"
  have "reload c ?s0 = (Inr (), ?s0\<lparr>properties := properties s,
          handle := (handle ?s0)\<lparr>notesAttr := Some (?a'\<lparr>contents := Some buf\<rparr>)\<rparr>\<rparr>)"
    using assms reload_present [of ?s0 ?a' buf c] by simp
  then have "init c ?n = (Inr (), \<lparr>properties = properties s, handle = ?n\<rparr>)"
    by (simp add: init_def)
  with inv p1 show ?thesis
    by simp
qed

theorem flush_then_fresh_store_roundtrip_witness:
  "dumps demo_codec [(StrKey ''a'', 1), (StrKey ''b'', 2)]
     = Inr (demo_dumps [(StrKey ''a'', 1), (StrKey ''b'', 2)])
   \<and> loads demo_codec (demo_dumps [(StrKey ''a'', 1), (StrKey ''b'', 2)])
     = Inr [(StrKey ''a'', 1), (StrKey ''b'', 2)]
   \<and> invalidate demo_codec \<lparr>properties = [(StrKey ''a'', 1), (StrKey ''b'', 2)], handle = bare_node\<rparr>
     = (Inr (), \<lparr>properties = [(StrKey ''a'', 1), (StrKey ''b'', 2)],
                  handle = node_with (Some (demo_dumps [(StrKey ''a'', 1), (StrKey ''b'', 2)]))\<rparr>)
   \<and> init demo_codec (node_with (Some (demo_dumps [(StrKey ''a'', 1), (StrKey ''b'', 2)])))
     = (Inr (), \<lparr>properties = [(StrKey ''a'', 1), (StrKey ''b'', 2)],
                  handle = node_with (Some (demo_dumps [(StrKey ''a'', 1), (StrKey ''b'', 2)]))\<rparr>)"
proof -
  let ?d = "[(StrKey ''a'', 1::int), (StrKey ''b'', 2)]"
  let ?s = "\<lparr>properties = ?d, handle = bare_node\<rparr>"
  have h1: "properties ?s \<noteq> []"
    by simp
  have h2: "notesAttr (handle ?s) \<noteq> None \<or> \<not> locked (handle ?s)"
    by (simp add: bare_node_def)
  have h3: "dumps demo_codec (properties ?s) = Inr (demo_dumps ?d)"
    by (simp add: demo_codec_def)
  have h4: "demo_dumps ?d \<noteq> []"
    by code_simp
  have h5: "loads demo_codec (demo_dumps ?d) = Inr (properties ?s)"
    by code_simp
  have inv: "invalidate demo_codec ?s
               = (Inr (), \<lparr>properties = ?d, handle = node_with (Some (demo_dumps ?d))\<rparr>)"
    by (simp add: invalidate_def ensureNotes_cases mc_setAttr_def bare_node_def node_with_def
        notes_with_def demo_codec_def)
  from flush_then_fresh_store_roundtrip [OF h1 h2 h3 h4 h5] inv h3 h5 show ?thesis
    by simp
qed

text \<open>
  The claim as stated fails at the empty mapping: the codec round-trips it
  (\<open>{}\<close> decodes to the empty mapping), but flushing it writes nothing, so a fresh store
  over a node whose notes still hold an earlier serialization reloads that one. A store
  is in this state after its only key has been deleted.
\<close>

theorem empty_flush_no_roundtrip:
  "dumps demo_codec [] = Inr ''{}''
   \<and> loads demo_codec ''{}'' = Inr []
   \<and> snd (delitem demo_codec (StrKey ''a'')
             (snd (init demo_codec (node_with (Some (demo_dumps [(StrKey ''a'', 1)]))))))
       = \<lparr>properties = [], handle = node_with (Some (demo_dumps [(StrKey ''a'', 1)]))\<rparr>
   \<and> invalidate demo_codec \<lparr>properties = [], handle = node_with (Some (demo_dumps [(StrKey ''a'', 1)]))\<rparr>
       = (Inr (), \<lparr>properties = [], handle = node_with (Some (demo_dumps [(StrKey ''a'', 1)]))\<rparr>)
   \<and> properties (snd (init demo_codec (node_with (Some (demo_dumps [(StrKey ''a'', 1)])))))
       = [(StrKey ''a'', 1)]
   \<and> properties (snd (init demo_codec (node_with (Some (demo_dumps [(StrKey ''a'', 1)])))))
       \<noteq> []"
  by code_simp

section \<open>Missing keys\<close>

text \<open>
  C4. For every key absent from the in-memory mapping, \<open>__getitem__\<close> and
  \<open>__delitem__\<close> both raise \<open>KeyError\<close>, and the failing delete leaves the state as it
  was: the mapping and the node are unchanged, \<open>invalidate\<close> is not reached.
\<close>

theorem missing_key_raises_KeyError:
  assumes "k \<notin> set (map fst (properties s))"
  shows "getitem s k = Inl KeyError \<and> delitem c k s = (Inl KeyError, s)"
proof -
  from assms have "map_of (properties s) k = None"
    by (simp add: map_of_eq_None_iff)
  then have "getitem s k = Inl KeyError"
    by (simp add: getitem_def)
  moreover from assms have "delitem c k s = (Inl KeyError, s)"
    by (simp add: delitem_def)
  ultimately show ?thesis
    by simp
qed

theorem missing_key_raises_KeyError_witness:
  "StrKey ''b'' \<notin> set (map fst (properties \<lparr>properties = [(StrKey ''a'', 1::int)], handle = bare_node\<rparr>))
   \<and> getitem \<lparr>properties = [(StrKey ''a'', 1::int)], handle = bare_node\<rparr> (StrKey ''b'') = Inl KeyError
   \<and> delitem demo_codec (StrKey ''b'') \<lparr>properties = [(StrKey ''a'', 1)], handle = bare_node\<rparr>
       = (Inl KeyError, \<lparr>properties = [(StrKey ''a'', 1)], handle = bare_node\<rparr>)"
proof -
  have h: "StrKey ''b'' \<notin> set (map fst (properties \<lparr>properties = [(StrKey ''a'', 1::int)], handle = bare_node\<rparr>))"
    by simp
  from missing_key_raises_KeyError [OF h, of demo_codec] h show ?thesis
    by simp
qed

text \<open>
  On a locked node without the notes attribute, \<open>ensureNotes\<close> creates nothing and the
  write of a non-empty mapping raises.
\<close>

lemma invalidate_locked_raises:
  "invalidate demo_codec \<lparr>properties = [(StrKey ''a'', 1)], handle = locked_node\<rparr>
     = (Inl RuntimeError, \<lparr>properties = [(StrKey ''a'', 1)], handle = locked_node\<rparr>)"
  by code_simp

section \<open>Deleting the last key\<close>

text \<open>
  C5. A store whose mapping holds exactly one key and whose notes attribute holds the
  (non-empty) serialization of that mapping: deleting the key empties the in-memory
  mapping and leaves the node as it was, the serialized text still in the attribute, so
  a store constructed afterwards over the same node reloads the deleted property.
\<close>

theorem delete_last_key_not_persisted:
  assumes "properties s = [(k, v)]"
    and "notesAttr (handle s) = Some a" and "contents a = Some buf" and "buf \<noteq> []"
    and "dumps c [(k, v)] = Inr buf" and "loads c buf = Inr [(k, v)]"
  shows "delitem c k s = (Inr (), s\<lparr>properties := []\<rparr>)
         \<and> handle (snd (delitem c k s)) = handle s
         \<and> init c (handle (snd (delitem c k s)))
             = (Inr (), \<lparr>properties = [(k, v)], handle = handle s\<rparr>)"
proof -
  have del: "delitem c k s = (Inr (), s\<lparr>properties := []\<rparr>)"
    using assms(1) by (simp add: delitem_def AList.delete_eq invalidate_empty)
  let ?s0 = "\<lparr>properties = [], handle = handle s\<rparr>"
  have "(handle s)\<lparr>notesAttr := Some (a\<lparr>contents := Some buf\<rparr>)\<rparr> = handle s"
    using assms(2,3) by simp
  then have "reload c ?s0 = (Inr (), \<lparr>properties = [(k, v)], handle = handle s\<rparr>)"
    using assms reload_present [of ?s0 a buf c] by simp
  with del show ?thesis
    by (simp add: init_def)
qed

theorem delete_last_key_not_persisted_witness:
  "dumps demo_codec [(StrKey ''scale'', 2)] = Inr (demo_dumps [(StrKey ''scale'', 2)])
   \<and> loads demo_codec (demo_dumps [(StrKey ''scale'', 2)]) = Inr [(StrKey ''scale'', 2)]
   \<and> delitem demo_codec (StrKey ''scale'')
        \<lparr>properties = [(StrKey ''scale'', 2)],
         handle = node_with (Some (demo_dumps [(StrKey ''scale'', 2)]))\<rparr>
       = (Inr (), \<lparr>properties = [],
                    handle = node_with (Some (demo_dumps [(StrKey ''scale'', 2)]))\<rparr>)
   \<and> init demo_codec (node_with (Some (demo_dumps [(StrKey ''scale'', 2)])))
       = (Inr (), \<lparr>properties = [(StrKey ''scale'', 2)],
                    handle = node_with (Some (demo_dumps [(StrKey ''scale'', 2)]))\<rparr>)"
proof -
  let ?d = "[(StrKey ''scale'', 2::int)]"
  let ?buf = "demo_dumps ?d"
  let ?s = "\<lparr>properties = ?d, handle = node_with (Some ?buf)\<rparr>"
  have h1: "properties ?s = ?d"
    by simp
  have h2: "notesAttr (handle ?s) = Some (notes_with (Some ?buf))"
    by (simp add: node_with_def)
  have h3: "contents (notes_with (Some ?buf)) = Some ?buf"
    by (simp add: notes_with_def)
  have h4: "?buf \<noteq> []"
    by code_simp
  have h5: "dumps demo_codec ?d = Inr ?buf"
    by (simp add: demo_codec_def)
  have h6: "loads demo_codec ?buf = Inr ?d"
    by code_simp
  note t = delete_last_key_not_persisted [OF h1 h2 h3 h4 h5 h6]
  have del: "delitem demo_codec (StrKey ''scale'') ?s
               = (Inr (), \<lparr>properties = [], handle = node_with (Some ?buf)\<rparr>)"
    using t [THEN conjunct1] by simp
  have "init demo_codec (handle (snd (delitem demo_codec (StrKey ''scale'') ?s)))
          = (Inr (), \<lparr>properties = ?d, handle = node_with (Some ?buf)\<rparr>)"
    using t [THEN conjunct2, THEN conjunct2] by simp
  then have "init demo_codec (node_with (Some ?buf))
               = (Inr (), \<lparr>properties = ?d, handle = node_with (Some ?buf)\<rparr>)"
    by (simp add: del)
  with del h5 h6 show ?thesis
    by simp
qed

section \<open>Reloading\<close>

text \<open>
  C6. When the notes attribute holds non-empty text that decodes to a non-empty
  mapping, \<open>reload\<close> serializes the decoded mapping again and writes the result to the
  attribute: the node it leaves holds the new serialization, whatever text it held
  before. Construction is a reload on a new instance, so it writes as well.
\<close>

theorem reload_writes_back:
  assumes "notesAttr (handle s) = Some a" and "contents a = Some buf" and "buf \<noteq> []"
    and "loads c buf = Inr d" and "d \<noteq> []" and "dumps c d = Inr buf'"
  shows "reload c s
           = (Inr (), \<lparr>properties = d,
                        handle = (handle s)\<lparr>notesAttr := Some (a\<lparr>contents := Some buf'\<rparr>)\<rparr>\<rparr>)
         \<and> mc_getAttr (handle (snd (reload c s))) = Inr (Some buf')
         \<and> init c (handle s)
           = (Inr (), \<lparr>properties = d,
                        handle = (handle s)\<lparr>notesAttr := Some (a\<lparr>contents := Some buf'\<rparr>)\<rparr>\<rparr>)"
proof -
  let ?n = "(handle s)\<lparr>notesAttr := Some (a\<lparr>contents := Some buf'\<rparr>)\<rparr>"
  have r: "reload c s = (Inr (), \<lparr>properties = d, handle = ?n\<rparr>)"
    using assms reload_present [of s a buf c] by simp
  have "reload c \<lparr>properties = [], handle = handle s\<rparr> = (Inr (), \<lparr>properties = d, handle = ?n\<rparr>)"
    using assms reload_present [of "\<lparr>properties = [], handle = handle s\<rparr>" a buf c] by simp
  with r show ?thesis
    by (simp add: init_def mc_getAttr_def)
qed

theorem reload_writes_back_witness:
  \<open>loads demo_codec ''{"a":1}'' = Inr [(StrKey ''a'', 1)]
   \<and> dumps demo_codec [(StrKey ''a'', 1)] = Inr (demo_dumps [(StrKey ''a'', 1)])
   \<and> demo_dumps [(StrKey ''a'', 1)] \<noteq> ''{"a":1}''
   \<and> reload demo_codec \<lparr>properties = [], handle = node_with (Some ''{"a":1}'')\<rparr>
       = (Inr (), \<lparr>properties = [(StrKey ''a'', 1)],
                    handle = node_with (Some (demo_dumps [(StrKey ''a'', 1)]))\<rparr>)
   \<and> init demo_codec (node_with (Some ''{"a":1}''))
       = (Inr (), \<lparr>properties = [(StrKey ''a'', 1)],
                    handle = node_with (Some (demo_dumps [(StrKey ''a'', 1)]))\<rparr>)\<close>
proof -
  let ?buf = \<open>''{"a":1}''\<close>
  let ?d = "[(StrKey ''a'', 1::int)]"
  let ?s = "\<lparr>properties = ([] :: int dict), handle = node_with (Some ?buf)\<rparr>"
  have h1: "notesAttr (handle ?s) = Some (notes_with (Some ?buf))"
    by (simp add: node_with_def)
  have h2: "contents (notes_with (Some ?buf)) = Some ?buf"
    by (simp add: notes_with_def)
  have h3: "?buf \<noteq> []"
    by simp
  have h4: "loads demo_codec ?buf = Inr ?d"
    by code_simp
  have h5: "?d \<noteq> []"
    by simp
  have h6: "dumps demo_codec ?d = Inr (demo_dumps ?d)"
    by (simp add: demo_codec_def)
  have differs: "demo_dumps ?d \<noteq> ?buf"
    by code_simp
  from reload_writes_back [OF h1 h2 h3 h4 h5 h6] h4 h6 differs show ?thesis
    by (simp add: node_with_def notes_with_def)
qed

text \<open>
  C7. Calling \<open>reload\<close> twice in succession gives what calling it once gives: the same
  outcome and the same state, hence the same in-memory mapping after each call. The
  codec is assumed symmetric on the mapping that the notes decode to.
\<close>

theorem reload_twice:
  assumes "\<And>buf d. tryGetBuffer s = Inr (Some buf) \<Longrightarrow> loads c buf = Inr d \<Longrightarrow> symmetric_on c d"
  shows "reload c (snd (reload c s)) = reload c s
         \<and> properties (snd (reload c (snd (reload c s)))) = properties (snd (reload c s))"
proof -
  have "reload c (snd (reload c s)) = reload c s"
  proof (cases "case notesAttr (handle s) of None \<Rightarrow> True | Some a \<Rightarrow> isNullOrEmpty (contents a)")
    case True
    then show ?thesis
      by (simp add: reload_no_text)
  next
    case False
    then obtain a buf where a: "notesAttr (handle s) = Some a"
      and buf: "contents a = Some buf" "buf \<noteq> []"
      by (cases "notesAttr (handle s)"; cases "contents (the (notesAttr (handle s)))") auto
    note first = reload_present [OF a buf, of c]
    show ?thesis
    proof (cases "loads c buf")
      case (Inl e)
      with first show ?thesis
        using a buf reload_present [of "s\<lparr>properties := []\<rparr>" a buf c]
        by (simp split: if_splits)
    next
      case (Inr d)
      show ?thesis
      proof (cases "d = []")
        case True
        with Inr first show ?thesis
          using a buf reload_present [of "s\<lparr>properties := []\<rparr>" a buf c]
          by simp
      next
        case False
        from a buf have "tryGetBuffer s = Inr (Some buf)"
          by (simp add: tryGetBuffer_present)
        with Inr assms have "symmetric_on c d"
          by blast
        then obtain buf' where d: "dumps c d = Inr buf'" and l: "loads c buf' = Inr d"
          by (auto simp add: symmetric_on_def split: sum.splits)
        let ?a' = "a\<lparr>contents := Some buf'\<rparr>"
        let ?s' = "s\<lparr>properties := d, handle := (handle s)\<lparr>notesAttr := Some ?a'\<rparr>\<rparr>"
        from Inr False d first have r: "reload c s = (Inr (), ?s')"
          by simp
        have "reload c ?s' = (Inr (), ?s')"
        proof (cases "buf' = []")
          case True
          then show ?thesis
            by (simp add: reload_no_text)
        next
          case nonempty: False
          then show ?thesis
            using False d l reload_present [of ?s' ?a' buf' c] by simp
        qed
        with r show ?thesis
          by simp
      qed
    qed
  qed
  then show ?thesis
    by simp
qed

theorem reload_twice_witness:
  \<open>tryGetBuffer \<lparr>properties = ([] :: int dict), handle = node_with (Some ''{"a":1}'')\<rparr>
     = Inr (Some ''{"a":1}'')
   \<and> loads demo_codec ''{"a":1}'' = Inr [(StrKey ''a'', 1)]
   \<and> symmetric_on demo_codec [(StrKey ''a'', 1)]
   \<and> reload demo_codec (snd (reload demo_codec
         \<lparr>properties = [], handle = node_with (Some ''{"a":1}'')\<rparr>))
       = reload demo_codec \<lparr>properties = [], handle = node_with (Some ''{"a":1}'')\<rparr>
   \<and> properties (snd (reload demo_codec (snd (reload demo_codec
         \<lparr>properties = [], handle = node_with (Some ''{"a":1}'')\<rparr>))))
       = [(StrKey ''a'', 1)]\<close>
proof -
  let ?buf = \<open>''{"a":1}''\<close>
  let ?d = "[(StrKey ''a'', 1::int)]"
  let ?s = "\<lparr>properties = ([] :: int dict), handle = node_with (Some ?buf)\<rparr>"
  have g: "tryGetBuffer ?s = Inr (Some ?buf)"
    by (simp add: tryGetBuffer_present [of _ "notes_with (Some ?buf)"] node_with_def notes_with_def)
  have l: "loads demo_codec ?buf = Inr ?d"
    by code_simp
  have sym: "symmetric_on demo_codec ?d"
    by code_simp
  have twice: "reload demo_codec (snd (reload demo_codec ?s)) = reload demo_codec ?s
               \<and> properties (snd (reload demo_codec (snd (reload demo_codec ?s))))
                   = properties (snd (reload demo_codec ?s))"
  proof (rule reload_twice)
    fix buf d
    assume "tryGetBuffer ?s = Inr (Some buf)" and "loads demo_codec buf = Inr d"
    with g l have "d = ?d"
      by simp
    with sym show "symmetric_on demo_codec d"
      by simp
  qed
  have once: "properties (snd (reload demo_codec ?s)) = ?d"
    by code_simp
  from twice once g l sym show ?thesis
    by simp
qed

section \<open>The notes attribute\<close>

text \<open>
  C8. \<open>ensureNotes\<close> never raises and running it twice is running it once. On a locked
  node without the notes attribute it creates nothing: the state is unchanged. It
  changes the state only when the attribute is absent and the node is not locked, and
  what it then does is add the attribute \<open>notes\<close> (\<open>nts\<close>) with data type \<open>string\<close>,
  cached internally, holding no text yet.
\<close>

theorem ensureNotes_idempotent_lock_respecting:
  "ensureNotes (snd (ensureNotes s)) = ensureNotes s
   \<and> fst (ensureNotes s) = Inr ()
   \<and> (locked (handle s) \<and> notesAttr (handle s) = None \<longrightarrow> ensureNotes s = (Inr (), s))
   \<and> (snd (ensureNotes s) \<noteq> s \<longleftrightarrow> notesAttr (handle s) = None \<and> \<not> locked (handle s))
   \<and> (notesAttr (handle s) = None \<and> \<not> locked (handle s) \<longrightarrow>
        snd (ensureNotes s) =
          s\<lparr>handle := (handle s)\<lparr>notesAttr := Some \<lparr>shortName = ''nts'', dataType = ''string'',
                                         cachedInternally = True, contents = None\<rparr>\<rparr>\<rparr>)"
proof (cases "notesAttr (handle s) = None \<and> \<not> locked (handle s)")
  case True
  let ?s' = "snd (ensureNotes s)"
  from True have s': "?s' = s\<lparr>handle := (handle s)\<lparr>notesAttr := Some \<lparr>shortName = ''nts'',
      dataType = ''string'', cachedInternally = True, contents = None\<rparr>\<rparr>\<rparr>"
    by (simp add: ensureNotes_cases)
  then have "notesAttr (handle ?s') \<noteq> None"
    by simp
  with True have neq: "?s' \<noteq> s"
    by auto
  have idem: "ensureNotes ?s' = ensureNotes s"
    using True by (simp add: ensureNotes_cases)
  show ?thesis
    using True s' neq idem by (simp add: ensureNotes_cases)
next
  case False
  then have "ensureNotes s = (Inr (), s)"
    by (auto simp add: ensureNotes_cases)
  with False show ?thesis
    by auto
qed

theorem ensureNotes_idempotent_lock_respecting_witness:
  "locked (handle \<lparr>properties = ([] :: int dict), handle = locked_node\<rparr>)
   \<and> notesAttr (handle \<lparr>properties = ([] :: int dict), handle = locked_node\<rparr>) = None
   \<and> ensureNotes \<lparr>properties = ([] :: int dict), handle = locked_node\<rparr>
       = (Inr (), \<lparr>properties = [], handle = locked_node\<rparr>)
   \<and> notesAttr (handle \<lparr>properties = ([] :: int dict), handle = bare_node\<rparr>) = None
   \<and> \<not> locked (handle \<lparr>properties = ([] :: int dict), handle = bare_node\<rparr>)
   \<and> ensureNotes \<lparr>properties = ([] :: int dict), handle = bare_node\<rparr>
       = (Inr (), \<lparr>properties = [], handle = node_with None\<rparr>)
   \<and> ensureNotes \<lparr>properties = ([] :: int dict), handle = node_with None\<rparr>
       = (Inr (), \<lparr>properties = [], handle = node_with None\<rparr>)"
proof -
  let ?l = "\<lparr>properties = ([] :: int dict), handle = locked_node\<rparr>"
  let ?b = "\<lparr>properties = ([] :: int dict), handle = bare_node\<rparr>"
  let ?w = "\<lparr>properties = ([] :: int dict), handle = node_with None\<rparr>"
  have hl: "locked (handle ?l) \<and> notesAttr (handle ?l) = None"
    by (simp add: locked_node_def)
  have hb: "notesAttr (handle ?b) = None \<and> \<not> locked (handle ?b)"
    by (simp add: bare_node_def)
  note l = ensureNotes_idempotent_lock_respecting [of ?l]
  note b = ensureNotes_idempotent_lock_respecting [of ?b]
  have 1: "ensureNotes ?l = (Inr (), ?l)"
    using l hl by blast
  have "snd (ensureNotes ?b) = ?w"
    using b [THEN conjunct2, THEN conjunct2, THEN conjunct2, THEN conjunct2] hb
    by (simp add: bare_node_def node_with_def notes_with_def)
  moreover have "fst (ensureNotes ?b) = Inr ()"
    using b by blast
  ultimately have 2: "ensureNotes ?b = (Inr (), ?w)"
    by (simp add: prod_eq_iff)
  have 3: "ensureNotes ?w = (Inr (), ?w)"
    using b [THEN conjunct1] 2 by simp
  from 1 2 3 hl hb show ?thesis
    by simp
qed

text \<open>
  C9. Where the strict read \<open>buffer\<close> fails, \<open>tryGetBuffer\<close> returns an empty string
  exactly when the notes attribute does not exist: the strict read then fails with
  \<open>ValueError\<close>, which the handler turns into the empty string. Every other failure of
  the read reaches the caller as it was raised, and what a successful read returns is
  returned as it is. The read command of the host is a parameter; it is assumed to
  raise \<open>ValueError\<close> for a missing attribute and for nothing else.
\<close>

theorem tryGetBuffer_converts_missing_attribute_only:
  assumes missing: "\<forall>n. notesAttr n = None \<longrightarrow> getAttr n = Inl ValueError"
    and other: "\<forall>n e. notesAttr n \<noteq> None \<and> getAttr n = Inl e \<longrightarrow> \<not> isinstance_ValueError e"
  shows "(notesAttr (handle s) = None \<longrightarrow>
            buffer_via getAttr s = Inl ValueError
            \<and> tryGetBuffer_via getAttr s = Inr (Some ''''))
         \<and> (\<forall>e. buffer_via getAttr s = Inl e \<longrightarrow>
                (tryGetBuffer_via getAttr s = Inr (Some '''') \<longleftrightarrow> notesAttr (handle s) = None))
         \<and> (\<forall>e. buffer_via getAttr s = Inl e \<and> notesAttr (handle s) \<noteq> None \<longrightarrow>
                tryGetBuffer_via getAttr s = Inl e)
         \<and> (\<forall>b. buffer_via getAttr s = Inr b \<longrightarrow> tryGetBuffer_via getAttr s = Inr b)"
proof -
  have absent: "buffer_via getAttr s = Inl ValueError \<and> tryGetBuffer_via getAttr s = Inr (Some '''')"
    if "notesAttr (handle s) = None"
    using missing that
    by (simp add: tryGetBuffer_via_def buffer_via_def except_ValueError_def)
  have passed: "tryGetBuffer_via getAttr s = Inl e"
    if "buffer_via getAttr s = Inl e" and "notesAttr (handle s) \<noteq> None" for e
  proof -
    from that have "getAttr (handle s) = Inl e"
      by (simp add: buffer_via_def)
    with that(2) other have "\<not> isinstance_ValueError e"
      by blast
    with that(1) show ?thesis
      by (simp add: tryGetBuffer_via_def except_ValueError_def)
  qed
  have exactly: "tryGetBuffer_via getAttr s = Inr (Some '''') \<longleftrightarrow> notesAttr (handle s) = None"
    if "buffer_via getAttr s = Inl e" for e
  proof (cases "notesAttr (handle s) = None")
    case True
    with absent show ?thesis
      by simp
  next
    case False
    with that passed have "tryGetBuffer_via getAttr s = Inl e"
      by simp
    with False show ?thesis
      by simp
  qed
  have success: "tryGetBuffer_via getAttr s = Inr b" if "buffer_via getAttr s = Inr b" for b
    using that by (simp add: tryGetBuffer_via_def except_ValueError_def)
  from absent passed exactly success show ?thesis
    by blast
qed

theorem tryGetBuffer_converts_missing_attribute_only_witness:
  "buffer \<lparr>properties = ([] :: int dict), handle = bare_node\<rparr> = Inl ValueError
   \<and> tryGetBuffer \<lparr>properties = ([] :: int dict), handle = bare_node\<rparr> = Inr (Some '''')
   \<and> buffer \<lparr>properties = ([] :: int dict), handle = node_with (Some ''{}'')\<rparr> = Inr (Some ''{}'')
   \<and> tryGetBuffer \<lparr>properties = ([] :: int dict), handle = node_with (Some ''{}'')\<rparr> = Inr (Some ''{}'')
   \<and> notesAttr (handle \<lparr>properties = ([] :: int dict), handle = message_node\<rparr>) \<noteq> None
   \<and> buffer_via typed_getAttr \<lparr>properties = ([] :: int dict), handle = message_node\<rparr>
       = Inl RuntimeError
   \<and> tryGetBuffer_via typed_getAttr \<lparr>properties = ([] :: int dict), handle = message_node\<rparr>
       = Inl RuntimeError
   \<and> tryGetBuffer_via typed_getAttr \<lparr>properties = ([] :: int dict), handle = bare_node\<rparr>
       = Inr (Some '''')"
proof -
  let ?b = "\<lparr>properties = ([] :: int dict), handle = bare_node\<rparr>"
  let ?w = "\<lparr>properties = ([] :: int dict), handle = node_with (Some ''{}'')\<rparr>"
  let ?m = "\<lparr>properties = ([] :: int dict), handle = message_node\<rparr>"
  have m1: "\<forall>n. notesAttr n = None \<longrightarrow> mc_getAttr n = Inl ValueError"
    by (simp add: mc_getAttr_def)
  have m2: "\<forall>n e. notesAttr n \<noteq> None \<and> mc_getAttr n = Inl e \<longrightarrow> \<not> isinstance_ValueError e"
    by (auto simp add: mc_getAttr_def)
  have t1: "\<forall>n. notesAttr n = None \<longrightarrow> typed_getAttr n = Inl ValueError"
    by (simp add: typed_getAttr_def)
  have t2: "\<forall>n e. notesAttr n \<noteq> None \<and> typed_getAttr n = Inl e \<longrightarrow> \<not> isinstance_ValueError e"
    by (auto simp add: typed_getAttr_def split: if_splits)
  note mb = tryGetBuffer_converts_missing_attribute_only [of mc_getAttr ?b, OF m1 m2]
  note mw = tryGetBuffer_converts_missing_attribute_only [of mc_getAttr ?w, OF m1 m2]
  note tm = tryGetBuffer_converts_missing_attribute_only [of typed_getAttr ?m, OF t1 t2]
  note tb = tryGetBuffer_converts_missing_attribute_only [of typed_getAttr ?b, OF t1 t2]
  have hb: "notesAttr (handle ?b) = None"
    by (simp add: bare_node_def)
  have hm: "notesAttr (handle ?m) \<noteq> None"
    by (simp add: message_node_def)
  have rw: "buffer_via mc_getAttr ?w = Inr (Some ''{}'')"
    by (simp add: buffer_via_def mc_getAttr_def node_with_def notes_with_def)
  have rm: "buffer_via typed_getAttr ?m = Inl RuntimeError"
    by (simp add: buffer_via_def typed_getAttr_def message_node_def)
  have 1: "buffer ?b = Inl ValueError \<and> tryGetBuffer ?b = Inr (Some '''')"
    using mb [THEN conjunct1] hb by (simp add: buffer_def tryGetBuffer_def)
  have 2: "buffer ?w = Inr (Some ''{}'') \<and> tryGetBuffer ?w = Inr (Some ''{}'')"
    using mw [THEN conjunct2, THEN conjunct2, THEN conjunct2] rw
    by (simp add: buffer_def tryGetBuffer_def)
  have 3: "tryGetBuffer_via typed_getAttr ?m = Inl RuntimeError"
    using tm [THEN conjunct2, THEN conjunct2, THEN conjunct1] rm hm by blast
  have 4: "tryGetBuffer_via typed_getAttr ?b = Inr (Some '''')"
    using tb [THEN conjunct1] hb by blast
  from 1 2 3 4 hm rm show ?thesis
    by blast
qed

text \<open>
  C10. Loading an empty or absent buffer takes no action: \<open>setBuffer\<close> returns with
  the state unchanged, and so does a \<open>reload\<close> that finds no text (no attribute, or an
  attribute without text), whatever the in-memory mapping holds.
\<close>

theorem empty_buffer_no_action:
  "(isNullOrEmpty buf \<longrightarrow> setBuffer c buf s = (Inr (), s))
   \<and> ((case notesAttr (handle s) of None \<Rightarrow> True | Some a \<Rightarrow> isNullOrEmpty (contents a))
        \<longrightarrow> reload c s = (Inr (), s))"
  by (simp add: setBuffer_no_text reload_no_text)

theorem empty_buffer_no_action_witness:
  "isNullOrEmpty None \<and> isNullOrEmpty (Some '''')
   \<and> setBuffer demo_codec None \<lparr>properties = [(StrKey ''a'', 1)], handle = node_with (Some ''x'')\<rparr>
       = (Inr (), \<lparr>properties = [(StrKey ''a'', 1)], handle = node_with (Some ''x'')\<rparr>)
   \<and> setBuffer demo_codec (Some '''') \<lparr>properties = [(StrKey ''a'', 1)], handle = bare_node\<rparr>
       = (Inr (), \<lparr>properties = [(StrKey ''a'', 1)], handle = bare_node\<rparr>)
   \<and> reload demo_codec \<lparr>properties = [(StrKey ''a'', 1)], handle = bare_node\<rparr>
       = (Inr (), \<lparr>properties = [(StrKey ''a'', 1)], handle = bare_node\<rparr>)
   \<and> reload demo_codec \<lparr>properties = [(StrKey ''a'', 1)], handle = node_with None\<rparr>
       = (Inr (), \<lparr>properties = [(StrKey ''a'', 1)], handle = node_with None\<rparr>)"
proof -
  let ?d = "[(StrKey ''a'', 1::int)]"
  have n: "isNullOrEmpty None" and e: "isNullOrEmpty (Some '''')"
    by simp_all
  have hb: "case notesAttr (handle \<lparr>properties = ?d, handle = bare_node\<rparr>) of
              None \<Rightarrow> True | Some a \<Rightarrow> isNullOrEmpty (contents a)"
    by (simp add: bare_node_def)
  have hw: "case notesAttr (handle \<lparr>properties = ?d, handle = node_with None\<rparr>) of
              None \<Rightarrow> True | Some a \<Rightarrow> isNullOrEmpty (contents a)"
    by (simp add: node_with_def notes_with_def)
  from empty_buffer_no_action
         [of None demo_codec "\<lparr>properties = ?d, handle = node_with (Some ''x'')\<rparr>"]
       empty_buffer_no_action [of "Some ''''" demo_codec "\<lparr>properties = ?d, handle = bare_node\<rparr>"]
       empty_buffer_no_action [of None demo_codec "\<lparr>properties = ?d, handle = node_with None\<rparr>"]
       n e hb hw
  show ?thesis
    by blast
qed

end
